theory Spec2Isabelle
  imports Complex_Main
begin

section \<open>Values of the scoring script\<close>

text \<open>
  The script \<open>analysis.py\<close> computes with Python and numpy floating-point numbers.
  A float is modelled by its mathematical value: a finite float is an exact real, and the
  three special values that the script's own arithmetic can produce or test for are kept
  apart (\<open>PInf\<close>, \<open>NInf\<close>, \<open>NaN\<close>).  NaN is how the tables mark a missing cell;
  an infinity arises inside the script where pandas divides a nonzero number by zero.
  Rounding of finite results to 53 bits and overflow are outside the model, and there is
  one zero (the positive one).
\<close>

datatype fval = Fin real | PInf | NInf | NaN

fun fneg :: "fval \<Rightarrow> fval" where
  "fneg (Fin a) = Fin (- a)"
| "fneg PInf = NInf"
| "fneg NInf = PInf"
| "fneg NaN = NaN"

fun fabs :: "fval \<Rightarrow> fval" where
  "fabs (Fin a) = Fin \<bar>a\<bar>"
| "fabs PInf = PInf"
| "fabs NInf = PInf"
| "fabs NaN = NaN"

fun fadd :: "fval \<Rightarrow> fval \<Rightarrow> fval" where
  "fadd (Fin a) (Fin b) = Fin (a + b)"
| "fadd NaN y = NaN"
| "fadd x NaN = NaN"
| "fadd PInf NInf = NaN"
| "fadd NInf PInf = NaN"
| "fadd PInf y = PInf"
| "fadd x PInf = PInf"
| "fadd NInf y = NInf"
| "fadd x NInf = NInf"

definition fsub :: "fval \<Rightarrow> fval \<Rightarrow> fval" where
  "fsub x y = fadd x (fneg y)"

fun fmul :: "fval \<Rightarrow> fval \<Rightarrow> fval" where
  "fmul (Fin a) (Fin b) = Fin (a * b)"
| "fmul NaN y = NaN"
| "fmul x NaN = NaN"
| "fmul (Fin a) PInf = (if a = 0 then NaN else if 0 < a then PInf else NInf)"
| "fmul (Fin a) NInf = (if a = 0 then NaN else if 0 < a then NInf else PInf)"
| "fmul PInf (Fin b) = (if b = 0 then NaN else if 0 < b then PInf else NInf)"
| "fmul NInf (Fin b) = (if b = 0 then NaN else if 0 < b then NInf else PInf)"
| "fmul PInf PInf = PInf"
| "fmul PInf NInf = NInf"
| "fmul NInf PInf = NInf"
| "fmul NInf NInf = PInf"

text \<open>
  Division as numpy and pandas do it on arrays and numpy scalars: a zero divisor gives an
  infinity (or NaN for \<open>0 / 0\<close>) and no exception.
\<close>

fun fdiv :: "fval \<Rightarrow> fval \<Rightarrow> fval" where
  "fdiv (Fin a) (Fin b) =
     (if b = 0 then (if a = 0 then NaN else if 0 < a then PInf else NInf) else Fin (a / b))"
| "fdiv NaN y = NaN"
| "fdiv x NaN = NaN"
| "fdiv (Fin a) PInf = Fin 0"
| "fdiv (Fin a) NInf = Fin 0"
| "fdiv PInf (Fin b) = (if 0 \<le> b then PInf else NInf)"
| "fdiv NInf (Fin b) = (if 0 \<le> b then NInf else PInf)"
| "fdiv PInf PInf = NaN"
| "fdiv PInf NInf = NaN"
| "fdiv NInf PInf = NaN"
| "fdiv NInf NInf = NaN"

text \<open>
  A Python value as the three helper functions can meet it: \<open>None\<close>, a float, or the
  module-level object \<open>np.nan\<close> itself.  The last is a float NaN too, but the membership
  test \<open>b in (0, None, np.nan)\<close> recognises a NaN only by object identity (NaN is not
  equal to itself), so the object \<open>np.nan\<close> and any other NaN must be told apart.
\<close>

datatype pyval = PyNone | PyFloat fval | NpNan

datatype error = TypeError | ZeroDivisionError

fun num_of :: "pyval \<Rightarrow> fval option" where
  "num_of PyNone = None"
| "num_of (PyFloat x) = Some x"
| "num_of NpNan = Some NaN"

text \<open>The float held by a value; used only where \<open>pd.isna\<close> has already excluded \<open>None\<close>.\<close>

fun float_of :: "pyval \<Rightarrow> fval" where
  "float_of (PyFloat x) = x"
| "float_of NpNan = NaN"
| "float_of PyNone = NaN"

text \<open>\<open>pd.isna\<close> on a scalar: true of \<open>None\<close> and of every NaN, false of infinities.\<close>

fun isna :: "pyval \<Rightarrow> bool" where
  "isna PyNone = True"
| "isna NpNan = True"
| "isna (PyFloat x) = (x = NaN)"

text \<open>
  Python's \<open>a / b\<close> on two floats: \<open>None\<close> as an operand raises TypeError, a zero
  divisor raises ZeroDivisionError.
\<close>

definition py_truediv :: "pyval \<Rightarrow> pyval \<Rightarrow> error + pyval" where
  "py_truediv a b =
     (case (num_of a, num_of b) of
        (Some x, Some y) \<Rightarrow>
          if y = Fin 0 then Inl ZeroDivisionError else Inr (PyFloat (fdiv x y))
      | _ \<Rightarrow> Inl TypeError)"

section \<open>The three helper functions\<close>

text \<open>
  \<^verbatim>\<open>def safe_div(a, b):
    return a / b if b not in (0, None, np.nan) else np.nan\<close>
\<close>

definition in_guard :: "pyval \<Rightarrow> bool" where
  "in_guard b \<longleftrightarrow> b = PyFloat (Fin 0) \<or> b = PyNone \<or> b = NpNan"

definition safe_div :: "pyval \<Rightarrow> pyval \<Rightarrow> error + pyval" where
  "safe_div a b = (if \<not> in_guard b then py_truediv a b else Inr NpNan)"

text \<open>
  \<^verbatim>\<open>def deviation_score(value, reference):
    if pd.isna(value) or pd.isna(reference) or reference == 0:
        return np.nan
    return 1 - abs(value - reference) / reference\<close>
  Past the guard both arguments are floats and the divisor is not zero, so nothing raises.
\<close>

definition deviation_score :: "pyval \<Rightarrow> pyval \<Rightarrow> pyval" where
  "deviation_score v r =
     (if isna v \<or> isna r \<or> r = PyFloat (Fin 0) then NpNan
      else PyFloat (fsub (Fin 1) (fdiv (fabs (fsub (float_of v) (float_of r))) (float_of r))))"

text \<open>
  \<^verbatim>\<open>def normalize_partial(scores, weights):
    valid = [(s, w) for s, w in zip(scores, weights) if not pd.isna(s)]
    if not valid:
        return np.nan
    total_weight = sum(w for _, w in valid)
    return sum(s * w for s, w in valid) / total_weight\<close>
  The weights are finite floats (at every call they are literals).  \<open>sum\<close> adds from the
  left, starting at 0.  The final division is Python's, which raises on a zero divisor
  (on numpy scalars it would give an infinity or NaN instead; with the positive weights
  of the three calls in the script the divisor is never zero).
\<close>

definition valid_pairs :: "pyval list \<Rightarrow> real list \<Rightarrow> (pyval \<times> real) list" where
  "valid_pairs scores weights = filter (\<lambda>(s, w). \<not> isna s) (zip scores weights)"

definition fsum :: "fval list \<Rightarrow> fval" where
  "fsum xs = foldl fadd (Fin 0) xs"

definition normalize_partial :: "pyval list \<Rightarrow> real list \<Rightarrow> error + pyval" where
  "normalize_partial scores weights =
     (let valid = valid_pairs scores weights in
      if valid = [] then Inr NpNan
      else
        let total_weight = sum_list (map snd valid);
            numer = fsum (map (\<lambda>(s, w). fmul (float_of s) (Fin w)) valid)
        in if total_weight = 0 then Inl ZeroDivisionError
           else Inr (PyFloat (fdiv numer (Fin total_weight))))"

section \<open>Tables, the join and the national baselines\<close>

text \<open>
  Column reductions.  \<open>Series.mean()\<close> and \<open>np.nanmean\<close> both skip NaN entries,
  add the others and divide by their number; with nothing left the result is NaN.
  An infinity is not skipped.  \<open>Series.max()\<close> skips NaN entries in the same way.
\<close>

definition nanmean :: "fval list \<Rightarrow> fval" where
  "nanmean xs =
     (let ys = filter (\<lambda>x. x \<noteq> NaN) xs in
      if ys = [] then NaN else fdiv (fsum ys) (Fin (real (length ys))))"

fun fle :: "fval \<Rightarrow> fval \<Rightarrow> bool" where
  "fle (Fin a) (Fin b) = (a \<le> b)"
| "fle NaN y = False"
| "fle x NaN = False"
| "fle NInf y = True"
| "fle x PInf = True"
| "fle x y = False"

definition series_max :: "fval list \<Rightarrow> fval" where
  "series_max xs =
     (case filter (\<lambda>x. x \<noteq> NaN) xs of
        [] \<Rightarrow> NaN
      | y # ys \<Rightarrow> foldl (\<lambda>m x. if fle m x then x else m) y ys)"

text \<open>
  The three input tables, with the key columns and the columns the script reads (the CSV
  files carry further columns that no formula uses).  A numeric cell is a float; a missing
  cell is NaN, as \<open>pd.read_csv\<close> delivers it.
\<close>

record demo_row =
  d_pc_id :: string
  d_state :: string
  d_constituency_name :: string
  d_total_registered_voters :: fval
  d_female_voters :: fval
  d_age_18_25 :: fval
  d_age_26_40 :: fval
  d_age_41_60 :: fval
  d_age_60_plus :: fval
  d_literacy_rate_percent :: fval
  d_last_election_turnout_percent :: fval

record migration_row =
  m_pc_id :: string
  m_state :: string
  m_constituency_name :: string
  m_form6_addition_requests :: fval
  m_net_migration :: fval

record system_row =
  s_pc_id :: string
  s_state :: string
  s_constituency_name :: string
  s_total_requests :: fval
  s_rejected :: fval
  s_objections_raised :: fval
  s_cases_per_officer :: fval

record joined =
  pc_id :: string
  state :: string
  constituency_name :: string
  total_registered_voters :: fval
  female_voters :: fval
  age_18_25 :: fval
  age_26_40 :: fval
  age_41_60 :: fval
  age_60_plus :: fval
  literacy_rate_percent :: fval
  last_election_turnout_percent :: fval
  form6_addition_requests :: fval
  net_migration :: fval
  total_requests :: fval
  rejected :: fval
  objections_raised :: fval
  cases_per_officer :: fval

text \<open>
  \<open>left.merge(right, on=[...], how="left")\<close>: every left row, in the order of the left
  table, paired with each right row of equal key (in the order of the right table), or
  with no right row when none has that key.
\<close>

definition merge_left :: "('l \<Rightarrow> 'r \<Rightarrow> bool) \<Rightarrow> 'l list \<Rightarrow> 'r list \<Rightarrow> ('l \<times> 'r option) list" where
  "merge_left same_key ls rs =
     concat (map (\<lambda>l. case filter (same_key l) rs of
                          [] \<Rightarrow> [(l, None)]
                        | ms \<Rightarrow> map (\<lambda>r. (l, Some r)) ms) ls)"

definition key_dm :: "demo_row \<Rightarrow> migration_row \<Rightarrow> bool" where
  "key_dm d m \<longleftrightarrow>
     d_pc_id d = m_pc_id m \<and> d_state d = m_state m
     \<and> d_constituency_name d = m_constituency_name m"

definition key_ds :: "demo_row \<times> migration_row option \<Rightarrow> system_row \<Rightarrow> bool" where
  "key_ds dm s \<longleftrightarrow>
     d_pc_id (fst dm) = s_pc_id s \<and> d_state (fst dm) = s_state s
     \<and> d_constituency_name (fst dm) = s_constituency_name s"

definition mig_col :: "(migration_row \<Rightarrow> fval) \<Rightarrow> migration_row option \<Rightarrow> fval" where
  "mig_col f mo = (case mo of None \<Rightarrow> NaN | Some m \<Rightarrow> f m)"

definition sys_col :: "(system_row \<Rightarrow> fval) \<Rightarrow> system_row option \<Rightarrow> fval" where
  "sys_col f so = (case so of None \<Rightarrow> NaN | Some s \<Rightarrow> f s)"

definition to_joined :: "(demo_row \<times> migration_row option) \<times> system_row option \<Rightarrow> joined" where
  "to_joined x =
     (let d = fst (fst x); mo = snd (fst x); so = snd x in
      \<lparr> pc_id = d_pc_id d, state = d_state d, constituency_name = d_constituency_name d,
        total_registered_voters = d_total_registered_voters d,
        female_voters = d_female_voters d,
        age_18_25 = d_age_18_25 d, age_26_40 = d_age_26_40 d,
        age_41_60 = d_age_41_60 d, age_60_plus = d_age_60_plus d,
        literacy_rate_percent = d_literacy_rate_percent d,
        last_election_turnout_percent = d_last_election_turnout_percent d,
        form6_addition_requests = mig_col m_form6_addition_requests mo,
        net_migration = mig_col m_net_migration mo,
        total_requests = sys_col s_total_requests so,
        rejected = sys_col s_rejected so,
        objections_raised = sys_col s_objections_raised so,
        cases_per_officer = sys_col s_cases_per_officer so \<rparr>)"

definition df :: "demo_row list \<Rightarrow> migration_row list \<Rightarrow> system_row list \<Rightarrow> joined list" where
  "df demo_df migration_df system_df =
     map to_joined (merge_left key_ds (merge_left key_dm demo_df migration_df) system_df)"

text \<open>
  The baselines, computed once over the joined table.  The two rate baselines divide the
  columns elementwise (pandas division, no guard) and take the mean of the quotients.
\<close>

record baselines =
  national_age_avg :: "fval list"
  national_literacy_avg :: fval
  national_turnout_avg :: fval
  national_form6_avg :: fval
  national_rejection_rate_avg :: fval
  national_objection_rate_avg :: fval
  national_max_cases_per_officer :: fval

definition national_baselines :: "joined list \<Rightarrow> baselines" where
  "national_baselines t =
     \<lparr> national_age_avg =
         [nanmean (map age_18_25 t), nanmean (map age_26_40 t),
          nanmean (map age_41_60 t), nanmean (map age_60_plus t)],
       national_literacy_avg = nanmean (map literacy_rate_percent t),
       national_turnout_avg = nanmean (map last_election_turnout_percent t),
       national_form6_avg = nanmean (map form6_addition_requests t),
       national_rejection_rate_avg =
         nanmean (map (\<lambda>r. fdiv (rejected r) (total_requests r)) t),
       national_objection_rate_avg =
         nanmean (map (\<lambda>r. fdiv (objections_raised r) (total_requests r)) t),
       national_max_cases_per_officer = series_max (map cases_per_officer t) \<rparr>"

section \<open>Scoring one row\<close>

definition bindE :: "error + 'a \<Rightarrow> ('a \<Rightarrow> error + 'b) \<Rightarrow> error + 'b" where
  "bindE m f = (case m of Inl e \<Rightarrow> Inl e | Inr x \<Rightarrow> f x)"

definition IDEAL_GENDER_RATIO :: pyval where
  "IDEAL_GENDER_RATIO = PyFloat (Fin (1 / 2))"

definition gender_ratio :: "joined \<Rightarrow> error + pyval" where
  "gender_ratio r = safe_div (PyFloat (female_voters r)) (PyFloat (total_registered_voters r))"

definition age_vec :: "joined \<Rightarrow> fval list" where
  "age_vec r = [age_18_25 r, age_26_40 r, age_41_60 r, age_60_plus r]"

text \<open>
  \<open>ADS = 1 - np.nanmean(np.abs(age_vec - age_avg_vec))\<close>, elementwise on two vectors
  of four entries each (\<open>national_baselines\<close> builds the second with four).
\<close>

definition ADS :: "baselines \<Rightarrow> joined \<Rightarrow> fval" where
  "ADS B r =
     fsub (Fin 1)
       (nanmean (map fabs (map (\<lambda>(a, m). fsub a m) (zip (age_vec r) (national_age_avg B)))))"

definition LCS :: "baselines \<Rightarrow> joined \<Rightarrow> pyval" where
  "LCS B r = deviation_score (PyFloat (literacy_rate_percent r)) (PyFloat (national_literacy_avg B))"

definition TAS :: "baselines \<Rightarrow> joined \<Rightarrow> pyval" where
  "TAS B r =
     deviation_score (PyFloat (last_election_turnout_percent r)) (PyFloat (national_turnout_avg B))"

definition SHS :: "baselines \<Rightarrow> joined \<Rightarrow> error + pyval" where
  "SHS B r =
     bindE (gender_ratio r) (\<lambda>g.
       normalize_partial
         [deviation_score g IDEAL_GENDER_RATIO, PyFloat (ADS B r), LCS B r, TAS B r]
         [1 / 4, 3 / 10, 1 / 5, 1 / 4])"

definition MPI :: "baselines \<Rightarrow> joined \<Rightarrow> error + pyval" where
  "MPI B r =
     bindE (safe_div (PyFloat (fabs (net_migration r))) (PyFloat (form6_addition_requests r)))
       (\<lambda>NMI.
     bindE (safe_div (PyFloat (form6_addition_requests r)) (PyFloat (national_form6_avg B)))
       (\<lambda>F6R.
     normalize_partial [NMI, F6R] [3 / 5, 2 / 5]))"

definition APS :: "baselines \<Rightarrow> joined \<Rightarrow> error + pyval" where
  "APS B r =
     bindE (safe_div (PyFloat (rejected r)) (PyFloat (total_requests r))) (\<lambda>rejection_rate.
     bindE (safe_div rejection_rate (PyFloat (national_rejection_rate_avg B))) (\<lambda>RRD.
     bindE (safe_div (PyFloat (objections_raised r)) (PyFloat (total_requests r)))
       (\<lambda>objection_rate.
     bindE (safe_div objection_rate (PyFloat (national_objection_rate_avg B))) (\<lambda>ODD.
     bindE (safe_div (PyFloat (cases_per_officer r)) (PyFloat (national_max_cases_per_officer B)))
       (\<lambda>ALP.
     normalize_partial [RRD, ODD, ALP] [2 / 5, 7 / 20, 1 / 4])))))"

text \<open>
  \<open>round(x, 4)\<close> rounds to the nearest multiple of \<open>1/10000\<close>, a tie going to the even
  neighbour; an infinity stays what it is.
\<close>

definition round_half_even :: "real \<Rightarrow> int" where
  "round_half_even x =
     (let f = \<lfloor>x\<rfloor>; d = x - of_int f in
      if d < 1 / 2 then f else if 1 / 2 < d then f + 1 else if even f then f else f + 1)"

fun py_round4 :: "fval \<Rightarrow> fval" where
  "py_round4 (Fin x) = Fin (of_int (round_half_even (x * 10000)) / 10000)"
| "py_round4 PInf = PInf"
| "py_round4 NInf = NInf"
| "py_round4 NaN = NaN"

text \<open>\<open>round(S, 4) if not pd.isna(S) else None\<close>; the result \<open>None\<close> is Python's.\<close>

definition emit :: "pyval \<Rightarrow> fval option" where
  "emit S = (if \<not> isna S then Some (py_round4 (float_of S)) else None)"

record out_row =
  o_pc_id :: string
  o_state :: string
  o_constituency_name :: string
  statistical_health_score :: "fval option"
  migration_pressure_index :: "fval option"
  abuse_of_process_score :: "fval option"

definition score_row :: "baselines \<Rightarrow> joined \<Rightarrow> error + out_row" where
  "score_row B r =
     bindE (SHS B r) (\<lambda>shs.
     bindE (MPI B r) (\<lambda>mpi.
     bindE (APS B r) (\<lambda>aps.
     Inr \<lparr> o_pc_id = pc_id r, o_state = state r, o_constituency_name = constituency_name r,
           statistical_health_score = emit shs,
           migration_pressure_index = emit mpi,
           abuse_of_process_score = emit aps \<rparr>)))"

text \<open>The loop over \<open>df.iterrows()\<close>; an exception in one row ends the run.\<close>

fun results :: "baselines \<Rightarrow> joined list \<Rightarrow> error + out_row list" where
  "results B [] = Inr []"
| "results B (r # rs) =
     bindE (score_row B r) (\<lambda>out. bindE (results B rs) (\<lambda>outs. Inr (out # outs)))"

definition analysis :: "demo_row list \<Rightarrow> migration_row list \<Rightarrow> system_row list \<Rightarrow> error + out_row list" where
  "analysis demo_df migration_df system_df =
     (let t = df demo_df migration_df system_df in results (national_baselines t) t)"

section \<open>Notions used to state the properties\<close>

text \<open>A value that is a finite number or a missing marker.\<close>

definition fin_or_nan :: "fval \<Rightarrow> bool" where
  "fin_or_nan x \<longleftrightarrow> x \<noteq> PInf \<and> x \<noteq> NInf"

definition fin_or_missing :: "pyval \<Rightarrow> bool" where
  "fin_or_missing v \<longleftrightarrow> v \<noteq> PyFloat PInf \<and> v \<noteq> PyFloat NInf"


definition fin_row :: "joined \<Rightarrow> bool" where
  "fin_row r \<longleftrightarrow>
     fin_or_nan (total_registered_voters r) \<and> fin_or_nan (female_voters r)
     \<and> fin_or_nan (age_18_25 r) \<and> fin_or_nan (age_26_40 r)
     \<and> fin_or_nan (age_41_60 r) \<and> fin_or_nan (age_60_plus r)
     \<and> fin_or_nan (literacy_rate_percent r) \<and> fin_or_nan (last_election_turnout_percent r)
     \<and> fin_or_nan (form6_addition_requests r) \<and> fin_or_nan (net_migration r)
     \<and> fin_or_nan (total_requests r) \<and> fin_or_nan (rejected r)
     \<and> fin_or_nan (objections_raised r) \<and> fin_or_nan (cases_per_officer r)"

text \<open>
  The rate baseline in the specification's words: the mean of the per-row ratios, where a
  row whose denominator is zero or missing contributes no value.
\<close>

definition rate_mean_spec :: "(joined \<Rightarrow> fval) \<Rightarrow> (joined \<Rightarrow> fval) \<Rightarrow> joined list \<Rightarrow> fval" where
  "rate_mean_spec num den t =
     nanmean (map (\<lambda>r. if den r = Fin 0 \<or> den r = NaN then NaN else fdiv (num r) (den r)) t)"

text \<open>
  The Age Distribution Score in the specification's words: one minus the mean of the
  absolute differences, taken over the brackets whose value is present.
\<close>

definition ads_spec :: "fval list \<Rightarrow> fval list \<Rightarrow> fval" where
  "ads_spec ages avgs =
     (let present = filter (\<lambda>(a, m). a \<noteq> NaN) (zip ages avgs) in
      if present = [] then NaN
      else fsub (Fin 1)
             (fdiv (fsum (map (\<lambda>(a, m). fabs (fsub a m)) present))
                   (Fin (real (length present)))))"

text \<open>A finite number with at most four decimal places; an output score that is such a number or absent.\<close>

definition four_decimals :: "fval \<Rightarrow> bool" where
  "four_decimals x = (case x of Fin a \<Rightarrow> of_int \<lfloor>a * 10000\<rfloor> = a * 10000 | _ \<Rightarrow> False)"

definition score_ok :: "fval option \<Rightarrow> bool" where
  "score_ok s = (case s of None \<Rightarrow> True | Some x \<Rightarrow> four_decimals x)"

definition scores_ok :: "out_row \<Rightarrow> bool" where
  "scores_ok out \<longleftrightarrow>
     score_ok (statistical_health_score out) \<and> score_ok (migration_pressure_index out)
     \<and> score_ok (abuse_of_process_score out)"

section \<open>Facts about the arithmetic\<close>

lemma fdiv_NaN_right [simp]: "fdiv x NaN = NaN"
  by (cases x) simp_all

lemma fadd_NaN_right [simp]: "fadd x NaN = NaN"
  by (cases x) simp_all

lemma fmul_NaN_right [simp]: "fmul x NaN = NaN"
  by (cases x) simp_all

lemma fsub_NaN_left [simp]: "fsub NaN y = NaN"
  by (simp add: fsub_def)

section \<open>The helper functions meet their descriptions\<close>

text \<open>
  Claim C3.  \<open>deviation_score\<close> returns a missing value whenever an input is missing or
  the reference is zero, and otherwise the value of \<open>1 - |value - reference| / reference\<close>,
  unclamped.  On inputs that are finite numbers or missing markers the result is missing
  exactly in those cases; on finite numbers it is the real number given by the formula
  (which is negative when the value is far from the reference), and a nonzero finite
  \<open>x\<close> scored against itself gives 1.  (With an infinite input the formula itself can
  evaluate to NaN, as in \<open>inf - inf\<close>; infinities are not numbers of the input tables.)
\<close>

theorem deviation_score_spec:
  "(isna v \<or> isna r \<or> r = PyFloat (Fin 0) \<longrightarrow> isna (deviation_score v r))
   \<and> (\<not> (isna v \<or> isna r \<or> r = PyFloat (Fin 0)) \<longrightarrow>
        deviation_score v r =
          PyFloat (fsub (Fin 1) (fdiv (fabs (fsub (float_of v) (float_of r))) (float_of r))))
   \<and> (fin_or_missing v \<and> fin_or_missing r \<longrightarrow>
        (isna (deviation_score v r) \<longleftrightarrow> isna v \<or> isna r \<or> r = PyFloat (Fin 0)))
   \<and> (\<forall>x y. y \<noteq> 0 \<longrightarrow>
        deviation_score (PyFloat (Fin x)) (PyFloat (Fin y)) = PyFloat (Fin (1 - \<bar>x - y\<bar> / y)))
   \<and> (\<forall>x. x \<noteq> 0 \<longrightarrow> deviation_score (PyFloat (Fin x)) (PyFloat (Fin x)) = PyFloat (Fin 1))"
proof -
  have fin: "deviation_score (PyFloat (Fin x)) (PyFloat (Fin y)) = PyFloat (Fin (1 - \<bar>x - y\<bar> / y))"
    if "y \<noteq> 0" for x y
    using that by (simp add: deviation_score_def fsub_def)
  have iff: "isna (deviation_score v r) \<longleftrightarrow> isna v \<or> isna r \<or> r = PyFloat (Fin 0)"
    if "fin_or_missing v" "fin_or_missing r"
  proof (cases "isna v \<or> isna r \<or> r = PyFloat (Fin 0)")
    case True
    then show ?thesis by (simp add: deviation_score_def)
  next
    case False
    from False that(1) obtain x where v: "v = PyFloat (Fin x)"
      by (cases v; cases "float_of v") (auto simp: fin_or_missing_def)
    from False that(2) obtain y where r: "r = PyFloat (Fin y)"
      by (cases r; cases "float_of r") (auto simp: fin_or_missing_def)
    from False r have "y \<noteq> 0" by auto
    then show ?thesis using False v r by (simp add: fin)
  qed
  show ?thesis
    using fin iff by (simp add: deviation_score_def)
qed

theorem deviation_score_spec_witness:
  "fin_or_missing (PyFloat (Fin 3)) \<and> fin_or_missing (PyFloat (Fin 1))
   \<and> \<not> isna (deviation_score (PyFloat (Fin 3)) (PyFloat (Fin 1)))
   \<and> deviation_score (PyFloat (Fin 3)) (PyFloat (Fin 1)) = PyFloat (Fin (- 1))
   \<and> deviation_score (PyFloat (Fin 2)) (PyFloat (Fin 2)) = PyFloat (Fin 1)
   \<and> isna (deviation_score (PyFloat (Fin 3)) (PyFloat (Fin 0)))
   \<and> isna (deviation_score PyNone (PyFloat (Fin 1)))"
  using deviation_score_spec [of "PyFloat (Fin 3)" "PyFloat (Fin 1)"]
    deviation_score_spec [of "PyFloat (Fin 3)" "PyFloat (Fin 0)"]
    deviation_score_spec [of "PyNone" "PyFloat (Fin 1)"]
  by (simp add: fin_or_missing_def fsub_def)




section \<open>The weighted partial average\<close>

lemma foldl_fadd_Fin: "foldl fadd (Fin a) (map Fin rs) = Fin (a + sum_list rs)"
  by (induction rs arbitrary: a) (simp_all add: add.assoc)

lemma fsum_Fin: "fsum (map Fin rs) = Fin (sum_list rs)"
  by (simp add: fsum_def foldl_fadd_Fin)
















section \<open>The rate baselines\<close>

lemma rate_baseline_agrees:
  assumes "\<forall>r\<in>set t. den r = Fin 0 \<longrightarrow> num r = Fin 0 \<or> num r = NaN"
  shows "nanmean (map (\<lambda>r. fdiv (num r) (den r)) t) = rate_mean_spec num den t"
proof -
  have "map (\<lambda>r. fdiv (num r) (den r)) t
      = map (\<lambda>r. if den r = Fin 0 \<or> den r = NaN then NaN else fdiv (num r) (den r)) t"
    using assms by (auto simp: map_eq_conv)
  then show ?thesis unfolding rate_mean_spec_def by (rule arg_cong)
qed

text \<open>
  Claim C1, evaluated on a joined table of two rows, the first with 5 rejected (or 5
  objections raised) out of 0 total requests, the second with 1 out of 2.  The script
  divides the columns without a guard, the first quotient is infinite, the mean does not
  skip it, and the baseline is infinite; the mean over the rows with a usable
  denominator, which the claim describes, is 1/2.  The other columns of the two rows
  are arbitrary.
\<close>

theorem rate_baseline_zero_denominator:
  "national_rejection_rate_avg
     (national_baselines [r1\<lparr>rejected := Fin 5, total_requests := Fin 0\<rparr>,
                          r2\<lparr>rejected := Fin 1, total_requests := Fin 2\<rparr>]) = PInf
   \<and> rate_mean_spec rejected total_requests
       [r1\<lparr>rejected := Fin 5, total_requests := Fin 0\<rparr>,
        r2\<lparr>rejected := Fin 1, total_requests := Fin 2\<rparr>] = Fin (1 / 2)
   \<and> national_objection_rate_avg
     (national_baselines [r1\<lparr>objections_raised := Fin 5, total_requests := Fin 0\<rparr>,
                          r2\<lparr>objections_raised := Fin 1, total_requests := Fin 2\<rparr>]) = PInf
   \<and> rate_mean_spec objections_raised total_requests
       [r1\<lparr>objections_raised := Fin 5, total_requests := Fin 0\<rparr>,
        r2\<lparr>objections_raised := Fin 1, total_requests := Fin 2\<rparr>] = Fin (1 / 2)"
  by (simp add: national_baselines_def rate_mean_spec_def nanmean_def fsum_def)

section \<open>The Statistical Health Score\<close>

lemma nanmean_all_NaN: "\<forall>x\<in>set xs. x = NaN \<Longrightarrow> nanmean xs = NaN"
  by (simp add: nanmean_def filter_empty_conv)

lemma sum_list_pos_real:
  fixes xs :: "real list"
  shows "xs \<noteq> [] \<Longrightarrow> \<forall>x\<in>set xs. 0 < x \<Longrightarrow> 0 < sum_list xs"
proof (induction xs)
  case Nil
  then show ?case by simp
next
  case (Cons x xs)
  then show ?case by (cases xs) (auto intro: add_pos_pos)
qed

lemma valid_pairs_weight_pos:
  assumes "\<forall>w\<in>set weights. 0 < w" "valid_pairs scores weights \<noteq> []"
  shows "0 < sum_list (map snd (valid_pairs scores weights))"
proof (rule sum_list_pos_real)
  show "map snd (valid_pairs scores weights) \<noteq> []" using assms(2) by simp
  show "\<forall>x\<in>set (map snd (valid_pairs scores weights)). 0 < x"
    using assms(1) by (auto simp: valid_pairs_def dest: set_zip_rightD)
qed







lemma fsum_zeros: "\<forall>x\<in>set xs. x = Fin 0 \<Longrightarrow> fsum xs = Fin 0"
  unfolding fsum_def by (induction xs) simp_all

lemma nanmean_zero_terms:
  assumes "\<forall>x\<in>set xs. x = Fin 0 \<or> x = NaN"
  shows "nanmean xs = Fin 0 \<or> nanmean xs = NaN"
proof (cases "filter (\<lambda>x. x \<noteq> NaN) xs = []")
  case True
  then show ?thesis by (simp add: nanmean_def)
next
  case False
  have "\<forall>x\<in>set (filter (\<lambda>x. x \<noteq> NaN) xs). x = Fin 0"
    using assms by auto
  then have "fsum (filter (\<lambda>x. x \<noteq> NaN) xs) = Fin 0"
    by (rule fsum_zeros)
  with False show ?thesis by (simp add: nanmean_def)
qed

lemma self_difference: "fabs (fsub x x) = Fin 0 \<or> fabs (fsub x x) = NaN"
  by (cases x) (simp_all add: fsub_def)

lemma deviation_score_self:
  "isna (deviation_score (PyFloat x) (PyFloat x))
     \<or> deviation_score (PyFloat x) (PyFloat x) = PyFloat (Fin 1)"
  by (cases x) (simp_all add: deviation_score_def fsub_def)

lemma normalize_partial_ones:
  assumes pos: "\<forall>w\<in>set weights. 0 < w"
    and one: "\<forall>s\<in>set scores. isna s \<or> s = PyFloat (Fin 1)"
    and ne: "valid_pairs scores weights \<noteq> []"
  shows "normalize_partial scores weights = Inr (PyFloat (Fin 1))"
proof -
  let ?V = "valid_pairs scores weights"
  have T: "0 < sum_list (map snd ?V)"
    using pos ne by (rule valid_pairs_weight_pos)
  have ones: "s = PyFloat (Fin 1)" if "(s, w) \<in> set ?V" for s w
    using that one by (auto simp: valid_pairs_def dest: set_zip_leftD)
  have "map (\<lambda>(s, w). fmul (float_of s) (Fin w)) ?V = map Fin (map snd ?V)"
    by (auto simp: map_eq_conv dest!: ones)
  then have "fsum (map (\<lambda>(s, w). fmul (float_of s) (Fin w)) ?V) = Fin (sum_list (map snd ?V))"
    by (simp only: fsum_Fin)
  with T ne show ?thesis
    by (simp add: normalize_partial_def Let_def)
qed

text \<open>
  Claim C5.  In a row where \<open>female_voters / total_registered_voters\<close> is 0.5, each of
  the four age brackets equals the national average of that bracket, the literacy rate
  equals the national average literacy and the turnout equals the national average
  turnout, the Statistical Health Score is exactly 1, and it is written out as 1.
  This holds for any baselines, also where an average is zero (that sub-score is then
  missing and the others still average to 1).
\<close>

theorem SHS_perfect_row:
  assumes g: "fdiv (female_voters r) (total_registered_voters r) = Fin (1 / 2)"
    and ages: "age_vec r = national_age_avg B"
    and lit: "literacy_rate_percent r = national_literacy_avg B"
    and tur: "last_election_turnout_percent r = national_turnout_avg B"
  shows "SHS B r = Inr (PyFloat (Fin 1)) \<and> emit (PyFloat (Fin 1)) = Some (Fin 1)"
proof -
  from g have t0: "total_registered_voters r \<noteq> Fin 0" "total_registered_voters r \<noteq> NaN"
    by (cases "female_voters r"; auto split: if_splits)+
  with g have G: "gender_ratio r = Inr (PyFloat (Fin (1 / 2)))"
    by (simp add: gender_ratio_def safe_div_def in_guard_def py_truediv_def)
  have GBS: "deviation_score (PyFloat (Fin (1 / 2))) IDEAL_GENDER_RATIO = PyFloat (Fin 1)"
    by (simp add: deviation_score_def IDEAL_GENDER_RATIO_def fsub_def)
  have "\<forall>x\<in>set (map fabs (map (\<lambda>(a, m). fsub a m) (zip (age_vec r) (national_age_avg B)))).
          x = Fin 0 \<or> x = NaN"
    by (auto simp: ages [symmetric] zip_same) (use self_difference in blast)
  then have "nanmean (map fabs (map (\<lambda>(a, m). fsub a m) (zip (age_vec r) (national_age_avg B)))) = Fin 0
      \<or> nanmean (map fabs (map (\<lambda>(a, m). fsub a m) (zip (age_vec r) (national_age_avg B)))) = NaN"
    by (rule nanmean_zero_terms)
  then have A: "isna (PyFloat (ADS B r)) \<or> PyFloat (ADS B r) = PyFloat (Fin 1)"
    by (auto simp: ADS_def fsub_def)
  have L: "isna (LCS B r) \<or> LCS B r = PyFloat (Fin 1)"
    using deviation_score_self [of "literacy_rate_percent r"] by (simp add: LCS_def lit [symmetric])
  have T: "isna (TAS B r) \<or> TAS B r = PyFloat (Fin 1)"
    using deviation_score_self [of "last_election_turnout_percent r"]
    by (simp add: TAS_def tur [symmetric])
  have "normalize_partial [PyFloat (Fin 1), PyFloat (ADS B r), LCS B r, TAS B r]
          [1 / 4, 3 / 10, 1 / 5, 1 / 4] = Inr (PyFloat (Fin 1))"
  proof (rule normalize_partial_ones)
    show "\<forall>w\<in>set [1 / 4, 3 / 10, 1 / 5, 1 / 4 :: real]. 0 < w" by simp
    show "\<forall>s\<in>set [PyFloat (Fin 1), PyFloat (ADS B r), LCS B r, TAS B r]. isna s \<or> s = PyFloat (Fin 1)"
      using A L T by simp
    show "valid_pairs [PyFloat (Fin 1), PyFloat (ADS B r), LCS B r, TAS B r]
            [1 / 4, 3 / 10, 1 / 5, 1 / 4] \<noteq> []"
      by (simp add: valid_pairs_def)
  qed
  then have "SHS B r = Inr (PyFloat (Fin 1))"
    by (simp add: SHS_def G bindE_def GBS)
  moreover have "emit (PyFloat (Fin 1)) = Some (Fin 1)"
    by (simp add: emit_def round_half_even_def)
  ultimately show ?thesis by simp
qed

theorem SHS_perfect_row_witness:
  "(let r = \<lparr> pc_id = ''PC001'', state = ''Goa'', constituency_name = ''North Goa'',
              total_registered_voters = Fin 1000, female_voters = Fin 500,
              age_18_25 = Fin 200, age_26_40 = Fin 300, age_41_60 = Fin 300, age_60_plus = Fin 200,
              literacy_rate_percent = Fin 70, last_election_turnout_percent = Fin 60,
              form6_addition_requests = NaN, net_migration = NaN, total_requests = NaN,
              rejected = NaN, objections_raised = NaN, cases_per_officer = NaN \<rparr>;
        B = national_baselines [r]
    in fdiv (female_voters r) (total_registered_voters r) = Fin (1 / 2)
       \<and> age_vec r = national_age_avg B
       \<and> literacy_rate_percent r = national_literacy_avg B
       \<and> last_election_turnout_percent r = national_turnout_avg B
       \<and> SHS B r = Inr (PyFloat (Fin 1)))"
proof -
  define r where "r = \<lparr> pc_id = ''PC001'', state = ''Goa'', constituency_name = ''North Goa'',
              total_registered_voters = Fin 1000, female_voters = Fin 500,
              age_18_25 = Fin 200, age_26_40 = Fin 300, age_41_60 = Fin 300, age_60_plus = Fin 200,
              literacy_rate_percent = Fin 70, last_election_turnout_percent = Fin 60,
              form6_addition_requests = NaN, net_migration = NaN, total_requests = NaN,
              rejected = NaN, objections_raised = NaN, cases_per_officer = NaN \<rparr>"
  have h: "fdiv (female_voters r) (total_registered_voters r) = Fin (1 / 2)"
    "age_vec r = national_age_avg (national_baselines [r])"
    "literacy_rate_percent r = national_literacy_avg (national_baselines [r])"
    "last_election_turnout_percent r = national_turnout_avg (national_baselines [r])"
    by (simp_all add: r_def age_vec_def national_baselines_def nanmean_def fsum_def)
  from SHS_perfect_row [OF h] h show ?thesis
    unfolding Let_def r_def [symmetric] by simp
qed

section \<open>Every row is scored, and finite inputs give finite scores\<close>

lemma foldl_fadd_all_Fin:
  "\<forall>x\<in>set xs. \<exists>a. x = Fin a \<Longrightarrow> \<exists>s. foldl fadd (Fin a0) xs = Fin s"
  by (induction xs arbitrary: a0) auto

lemma fsum_all_Fin: "\<forall>x\<in>set xs. \<exists>a. x = Fin a \<Longrightarrow> \<exists>s. fsum xs = Fin s"
  unfolding fsum_def by (rule foldl_fadd_all_Fin)

lemma fin_or_nan_cases: "fin_or_nan x \<longleftrightarrow> x = NaN \<or> (\<exists>a. x = Fin a)"
  by (cases x) (simp_all add: fin_or_nan_def)

lemma nanmean_Fin:
  assumes "\<forall>x\<in>set xs. fin_or_nan x" "\<exists>x\<in>set xs. x \<noteq> NaN"
  shows "\<exists>m. nanmean xs = Fin m"
proof -
  let ?ys = "filter (\<lambda>x. x \<noteq> NaN) xs"
  from assms(2) have ne: "?ys \<noteq> []" by (auto simp: filter_empty_conv)
  have "\<forall>x\<in>set ?ys. \<exists>a. x = Fin a"
    using assms(1) by (auto simp: fin_or_nan_cases)
  then obtain s where "fsum ?ys = Fin s" using fsum_all_Fin by blast
  with ne show ?thesis by (simp add: nanmean_def)
qed

lemma nanmean_fin_or_nan:
  assumes "\<forall>x\<in>set xs. fin_or_nan x"
  shows "fin_or_nan (nanmean xs)"
proof (cases "\<exists>x\<in>set xs. x \<noteq> NaN")
  case True
  with assms obtain m where "nanmean xs = Fin m" using nanmean_Fin by blast
  then show ?thesis by (simp add: fin_or_nan_def)
next
  case False
  then have "nanmean xs = NaN" by (simp add: nanmean_all_NaN)
  then show ?thesis by (simp add: fin_or_nan_def)
qed

lemma abs_diff_fin_or_nan: "fin_or_nan a \<Longrightarrow> fin_or_nan m \<Longrightarrow> fin_or_nan (fabs (fsub a m))"
  by (auto simp: fin_or_nan_cases fsub_def)

lemma one_minus_fin_or_nan: "fin_or_nan x \<Longrightarrow> fin_or_nan (fsub (Fin 1) x)"
  by (auto simp: fin_or_nan_cases fsub_def)

lemma fin_or_missing_PyFloat [simp]: "fin_or_missing (PyFloat x) \<longleftrightarrow> fin_or_nan x"
  by (simp add: fin_or_missing_def fin_or_nan_def)

lemma fin_or_missing_cases:
  "fin_or_missing v \<longleftrightarrow> isna v \<or> (\<exists>a. v = PyFloat (Fin a))"
  by (cases v; cases "float_of v") (auto simp: fin_or_missing_def)

lemma safe_div_ok:
  assumes "a \<noteq> PyNone"
  shows "\<exists>v. safe_div a (PyFloat y) = Inr v \<and> v \<noteq> PyNone \<and> (fin_or_missing a \<longrightarrow> fin_or_missing v)"
proof (cases "y = Fin 0")
  case True
  then show ?thesis by (simp add: safe_div_def in_guard_def fin_or_missing_def)
next
  case False
  from assms obtain x where x: "num_of a = Some x" "fin_or_missing a \<longrightarrow> fin_or_nan x"
    by (cases a) (auto simp: fin_or_nan_def)
  have "fin_or_nan x \<longrightarrow> fin_or_nan (fdiv x y)"
    using False by (cases y) (auto simp: fin_or_nan_cases)
  with x False show ?thesis
    by (simp add: safe_div_def in_guard_def py_truediv_def)
qed

lemma deviation_score_ok:
  "deviation_score v r \<noteq> PyNone \<and> (fin_or_missing v \<longrightarrow> fin_or_missing (deviation_score v r))"
proof (cases "isna v \<or> isna r \<or> r = PyFloat (Fin 0)")
  case True
  then show ?thesis by (simp add: deviation_score_def fin_or_missing_def)
next
  case False
  then obtain y where r: "r = PyFloat y" "y \<noteq> NaN" "y \<noteq> Fin 0"
    by (cases r) auto
  have "fin_or_nan (fsub (Fin 1) (fdiv (fabs (fsub (Fin a) y)) y))" for a
    using r by (cases y) (simp_all add: fsub_def fin_or_nan_def)
  note fin = this
  show ?thesis
  proof (intro conjI impI)
    show "deviation_score v r \<noteq> PyNone"
      using False by (simp add: deviation_score_def)
    assume "fin_or_missing v"
    with False obtain a where "v = PyFloat (Fin a)"
      by (auto simp: fin_or_missing_cases)
    with False r fin [of a] show "fin_or_missing (deviation_score v r)"
      by (simp add: deviation_score_def)
  qed
qed

lemma normalize_partial_ok:
  assumes pos: "\<forall>w\<in>set weights. 0 < w"
  shows "\<exists>v. normalize_partial scores weights = Inr v \<and> v \<noteq> PyNone
           \<and> ((\<forall>s\<in>set scores. fin_or_missing s) \<longrightarrow> fin_or_missing v)"
proof (cases "valid_pairs scores weights = []")
  case True
  then show ?thesis by (simp add: normalize_partial_def fin_or_missing_def)
next
  case False
  let ?V = "valid_pairs scores weights"
  let ?N = "fsum (map (\<lambda>(s, w). fmul (float_of s) (Fin w)) ?V)"
  from pos False have T: "0 < sum_list (map snd ?V)"
    by (rule valid_pairs_weight_pos)
  have "fin_or_nan (fdiv ?N (Fin (sum_list (map snd ?V))))"
    if fin: "\<forall>s\<in>set scores. fin_or_missing s"
  proof -
    have "\<exists>a. x = Fin a" if "x \<in> set (map (\<lambda>(s, w). fmul (float_of s) (Fin w)) ?V)" for x
    proof -
      from that obtain s w where sw: "(s, w) \<in> set ?V" "x = fmul (float_of s) (Fin w)" by auto
      then have "s \<in> set scores" "\<not> isna s"
        by (auto simp: valid_pairs_def dest: set_zip_leftD)
      with fin obtain a where "s = PyFloat (Fin a)" by (auto simp: fin_or_missing_cases)
      with sw show ?thesis by simp
    qed
    then obtain n where "?N = Fin n" using fsum_all_Fin by blast
    with T show ?thesis by (simp add: fin_or_nan_def)
  qed
  with False T show ?thesis
    by (simp add: normalize_partial_def Let_def)
qed

lemma ADS_fin_or_nan:
  assumes "fin_row r" "\<forall>m\<in>set (national_age_avg B). fin_or_nan m"
  shows "fin_or_nan (ADS B r)"
proof -
  have "\<forall>a\<in>set (age_vec r). fin_or_nan a"
    using assms(1) by (simp add: fin_row_def age_vec_def)
  then have "\<forall>x\<in>set (map fabs (map (\<lambda>(a, m). fsub a m) (zip (age_vec r) (national_age_avg B)))).
      fin_or_nan x"
    using assms(2) by (auto dest: set_zip_leftD set_zip_rightD intro!: abs_diff_fin_or_nan)
  then show ?thesis
    unfolding ADS_def by (intro one_minus_fin_or_nan nanmean_fin_or_nan)
qed

lemma SHS_ok:
  "\<exists>v. SHS B r = Inr v
     \<and> (fin_row r \<and> (\<forall>m\<in>set (national_age_avg B). fin_or_nan m) \<longrightarrow> fin_or_missing v)"
proof -
  obtain g where g: "gender_ratio r = Inr g" "g \<noteq> PyNone"
    "fin_or_nan (female_voters r) \<longrightarrow> fin_or_missing g"
    using safe_div_ok [of "PyFloat (female_voters r)" "total_registered_voters r"]
    by (auto simp: gender_ratio_def)
  let ?S = "[deviation_score g IDEAL_GENDER_RATIO, PyFloat (ADS B r), LCS B r, TAS B r]"
  obtain v where v: "normalize_partial ?S [1 / 4, 3 / 10, 1 / 5, 1 / 4] = Inr v"
    "(\<forall>s\<in>set ?S. fin_or_missing s) \<longrightarrow> fin_or_missing v"
    using normalize_partial_ok [of "[1 / 4, 3 / 10, 1 / 5, 1 / 4]" ?S] by auto
  have "\<forall>s\<in>set ?S. fin_or_missing s"
    if "fin_row r" "\<forall>m\<in>set (national_age_avg B). fin_or_nan m"
    using that g(3) deviation_score_ok ADS_fin_or_nan [OF that]
    by (simp add: LCS_def TAS_def fin_row_def)
  with v g(1) show ?thesis
    by (auto simp: SHS_def bindE_def)
qed

lemma MPI_ok: "\<exists>v. MPI B r = Inr v \<and> (fin_row r \<longrightarrow> fin_or_missing v)"
proof -
  obtain NMI where n: "safe_div (PyFloat (fabs (net_migration r))) (PyFloat (form6_addition_requests r)) = Inr NMI"
    "fin_or_nan (fabs (net_migration r)) \<longrightarrow> fin_or_missing NMI"
    using safe_div_ok [of "PyFloat (fabs (net_migration r))" "form6_addition_requests r"] by auto
  obtain F6R where f: "safe_div (PyFloat (form6_addition_requests r)) (PyFloat (national_form6_avg B)) = Inr F6R"
    "fin_or_nan (form6_addition_requests r) \<longrightarrow> fin_or_missing F6R"
    using safe_div_ok [of "PyFloat (form6_addition_requests r)" "national_form6_avg B"] by auto
  obtain v where v: "normalize_partial [NMI, F6R] [3 / 5, 2 / 5] = Inr v"
    "(\<forall>s\<in>set [NMI, F6R]. fin_or_missing s) \<longrightarrow> fin_or_missing v"
    using normalize_partial_ok [of "[3 / 5, 2 / 5]" "[NMI, F6R]"] by auto
  have "fin_or_nan (fabs x)" if "fin_or_nan x" for x
    using that by (auto simp: fin_or_nan_cases)
  with n f v show ?thesis
    by (auto simp: MPI_def bindE_def fin_row_def)
qed

lemma APS_ok: "\<exists>v. APS B r = Inr v \<and> (fin_row r \<longrightarrow> fin_or_missing v)"
proof -
  obtain rr where rr: "safe_div (PyFloat (rejected r)) (PyFloat (total_requests r)) = Inr rr"
    "rr \<noteq> PyNone" "fin_or_nan (rejected r) \<longrightarrow> fin_or_missing rr"
    using safe_div_ok [of "PyFloat (rejected r)" "total_requests r"] by auto
  obtain RRD where RRD: "safe_div rr (PyFloat (national_rejection_rate_avg B)) = Inr RRD"
    "fin_or_missing rr \<longrightarrow> fin_or_missing RRD"
    using safe_div_ok [OF rr(2), of "national_rejection_rate_avg B"] by auto
  obtain orr where orr: "safe_div (PyFloat (objections_raised r)) (PyFloat (total_requests r)) = Inr orr"
    "orr \<noteq> PyNone" "fin_or_nan (objections_raised r) \<longrightarrow> fin_or_missing orr"
    using safe_div_ok [of "PyFloat (objections_raised r)" "total_requests r"] by auto
  obtain ODD where ODD: "safe_div orr (PyFloat (national_objection_rate_avg B)) = Inr ODD"
    "fin_or_missing orr \<longrightarrow> fin_or_missing ODD"
    using safe_div_ok [OF orr(2), of "national_objection_rate_avg B"] by auto
  obtain ALP where ALP: "safe_div (PyFloat (cases_per_officer r)) (PyFloat (national_max_cases_per_officer B)) = Inr ALP"
    "fin_or_nan (cases_per_officer r) \<longrightarrow> fin_or_missing ALP"
    using safe_div_ok [of "PyFloat (cases_per_officer r)" "national_max_cases_per_officer B"] by auto
  obtain v where v: "normalize_partial [RRD, ODD, ALP] [2 / 5, 7 / 20, 1 / 4] = Inr v"
    "(\<forall>s\<in>set [RRD, ODD, ALP]. fin_or_missing s) \<longrightarrow> fin_or_missing v"
    using normalize_partial_ok [of "[2 / 5, 7 / 20, 1 / 4]" "[RRD, ODD, ALP]"] by auto
  from rr(1,3) RRD orr(1,3) ODD ALP v show ?thesis
    by (auto simp: APS_def bindE_def fin_row_def)
qed

section \<open>The output table\<close>

lemma round_half_even_close: "\<bar>of_int (round_half_even y) - y\<bar> \<le> 1 / 2"
proof -
  have "of_int \<lfloor>y\<rfloor> \<le> y" "y < of_int \<lfloor>y\<rfloor> + 1"
    by linarith+
  then show ?thesis
    by (auto simp: round_half_even_def Let_def)
qed

lemma py_round4_Fin:
  "\<exists>y. py_round4 (Fin x) = Fin y \<and> \<bar>y - x\<bar> \<le> 1 / 20000 \<and> four_decimals (Fin y)"
proof -
  let ?n = "round_half_even (x * 10000)"
  have "\<bar>of_int ?n - x * 10000\<bar> \<le> 1 / 2" by (rule round_half_even_close)
  then have close: "\<bar>of_int ?n / 10000 - x\<bar> \<le> 1 / 20000"
    by (simp add: field_simps abs_le_iff)
  have val: "py_round4 (Fin x) = Fin (of_int ?n / 10000)" by simp
  have "four_decimals (Fin (of_int ?n / 10000))" by (simp add: four_decimals_def)
  with close val show ?thesis by blast
qed

lemma emit_ok: "fin_or_missing v \<Longrightarrow> score_ok (emit v)"
proof (cases "isna v")
  case True
  then show ?thesis by (simp add: emit_def score_ok_def)
next
  case False
  assume "fin_or_missing v"
  with False obtain a where "v = PyFloat (Fin a)" by (auto simp: fin_or_missing_cases)
  with py_round4_Fin [of a] show ?thesis by (auto simp: emit_def score_ok_def)
qed

lemma score_row_ok:
  "\<exists>out. score_row B r = Inr out \<and> o_pc_id out = pc_id r
     \<and> (fin_row r \<and> (\<forall>m\<in>set (national_age_avg B). fin_or_nan m) \<longrightarrow> scores_ok out)"
proof -
  obtain shs where shs: "SHS B r = Inr shs"
    "fin_row r \<and> (\<forall>m\<in>set (national_age_avg B). fin_or_nan m) \<longrightarrow> fin_or_missing shs"
    using SHS_ok by blast
  obtain mpi where mpi: "MPI B r = Inr mpi" "fin_row r \<longrightarrow> fin_or_missing mpi"
    using MPI_ok by blast
  obtain aps where aps: "APS B r = Inr aps" "fin_row r \<longrightarrow> fin_or_missing aps"
    using APS_ok by blast
  from shs mpi aps show ?thesis
    by (auto simp: score_row_def bindE_def scores_ok_def intro: emit_ok)
qed

lemma results_ok:
  "\<exists>outs. results B t = Inr outs \<and> map o_pc_id outs = map pc_id t
     \<and> ((\<forall>r\<in>set t. fin_row r) \<and> (\<forall>m\<in>set (national_age_avg B). fin_or_nan m)
          \<longrightarrow> (\<forall>out\<in>set outs. scores_ok out))"
proof (induction t)
  case Nil
  then show ?case by simp
next
  case (Cons r t)
  from Cons.IH obtain outs where outs: "results B t = Inr outs" "map o_pc_id outs = map pc_id t"
    "(\<forall>r\<in>set t. fin_row r) \<and> (\<forall>m\<in>set (national_age_avg B). fin_or_nan m)
          \<longrightarrow> (\<forall>out\<in>set outs. scores_ok out)"
    by blast
  obtain out where out: "score_row B r = Inr out" "o_pc_id out = pc_id r"
    "fin_row r \<and> (\<forall>m\<in>set (national_age_avg B). fin_or_nan m) \<longrightarrow> scores_ok out"
    using score_row_ok by blast
  have "results B (r # t) = Inr (out # outs)"
    using outs(1) out(1) by (simp add: bindE_def)
  with outs(2,3) out(2,3) show ?case by auto
qed




lemma filter_unique_key:
  assumes "distinct (map k rs)" "\<forall>r\<in>set rs. P r \<longrightarrow> k r = c"
  shows "filter P rs = [] \<or> (\<exists>r. filter P rs = [r])"
  using assms
proof (induction rs)
  case Nil
  then show ?case by simp
next
  case (Cons x xs)
  show ?case
  proof (cases "P x")
    case True
    with Cons.prems have kx: "k x = c" "k x \<notin> k ` set xs" by auto
    have "\<not> P y" if y: "y \<in> set xs" for y
    proof
      assume "P y"
      with Cons.prems(2) y have "k y = c" by simp
      with kx y show False by (metis imageI)
    qed
    then have "filter P xs = []" by (simp add: filter_empty_conv)
    with True show ?thesis by simp
  next
    case False
    with Cons show ?thesis by simp
  qed
qed

lemma merge_left_fst:
  assumes "\<forall>l\<in>set ls. filter (same_key l) rs = [] \<or> (\<exists>r. filter (same_key l) rs = [r])"
  shows "map fst (merge_left same_key ls rs) = ls"
  using assms
proof (induction ls)
  case Nil
  then show ?case by (simp add: merge_left_def)
next
  case (Cons l ls)
  then have IH: "map fst (merge_left same_key ls rs) = ls" by simp
  from Cons.prems have "filter (same_key l) rs = [] \<or> (\<exists>r. filter (same_key l) rs = [r])"
    by simp
  then have "map fst (case filter (same_key l) rs of [] \<Rightarrow> [(l, None)]
                       | ms \<Rightarrow> map (\<lambda>r. (l, Some r)) ms) = [l]"
    by auto
  with IH show ?case by (simp add: merge_left_def)
qed

lemma df_pc_id:
  assumes "distinct (map m_pc_id migration_df)" "distinct (map s_pc_id system_df)"
  shows "map pc_id (df demo_df migration_df system_df) = map d_pc_id demo_df"
proof -
  let ?dm = "merge_left key_dm demo_df migration_df"
  have 1: "map fst ?dm = demo_df"
  proof (rule merge_left_fst, rule ballI)
    fix l
    show "filter (key_dm l) migration_df = [] \<or> (\<exists>r. filter (key_dm l) migration_df = [r])"
      using assms(1) by (rule filter_unique_key [where c = "d_pc_id l"]) (simp add: key_dm_def)
  qed
  have 2: "map fst (merge_left key_ds ?dm system_df) = ?dm"
  proof (rule merge_left_fst, rule ballI)
    fix l
    show "filter (key_ds l) system_df = [] \<or> (\<exists>r. filter (key_ds l) system_df = [r])"
      using assms(2) by (rule filter_unique_key [where c = "d_pc_id (fst l)"]) (simp add: key_ds_def)
  qed
  have "map pc_id (df demo_df migration_df system_df)
      = map d_pc_id (map fst (map fst (merge_left key_ds ?dm system_df)))"
    by (simp add: df_def to_joined_def o_def Let_def)
  with 1 2 show ?thesis by simp
qed

text \<open>
  Claim C8.  When \<open>pc_id\<close> is unique within each of the three input tables, the run
  produces exactly one output row per row of the demographics table, in the order of
  that table, and every \<open>pc_id\<close> of the demographics table appears exactly once.
\<close>

theorem one_output_row_per_constituency:
  assumes "distinct (map d_pc_id demo_df)" "distinct (map m_pc_id migration_df)"
    "distinct (map s_pc_id system_df)"
  shows "\<exists>outs. analysis demo_df migration_df system_df = Inr outs
           \<and> length outs = length demo_df
           \<and> map o_pc_id outs = map d_pc_id demo_df
           \<and> distinct (map o_pc_id outs)"
proof -
  let ?t = "df demo_df migration_df system_df"
  obtain outs where outs: "results (national_baselines ?t) ?t = Inr outs"
    "map o_pc_id outs = map pc_id ?t"
    using results_ok [of "national_baselines ?t" ?t] by blast
  from assms(2,3) have ids: "map pc_id ?t = map d_pc_id demo_df" by (rule df_pc_id)
  with outs(2) have m: "map o_pc_id outs = map d_pc_id demo_df" by simp
  then have "length outs = length demo_df" by (metis length_map)
  with outs(1) m assms(1) show ?thesis
    by (auto simp: analysis_def Let_def)
qed

theorem one_output_row_per_constituency_witness:
  "(let D = [\<lparr> d_pc_id = ''PC001'', d_state = ''Goa'', d_constituency_name = ''North Goa'',
                d_total_registered_voters = Fin 1000, d_female_voters = Fin 500,
                d_age_18_25 = Fin 200, d_age_26_40 = Fin 300, d_age_41_60 = Fin 300,
                d_age_60_plus = Fin 200, d_literacy_rate_percent = Fin 70,
                d_last_election_turnout_percent = Fin 60 \<rparr>,
             \<lparr> d_pc_id = ''PC002'', d_state = ''Goa'', d_constituency_name = ''South Goa'',
                d_total_registered_voters = Fin 2000, d_female_voters = Fin 900,
                d_age_18_25 = Fin 400, d_age_26_40 = Fin 600, d_age_41_60 = Fin 600,
                d_age_60_plus = Fin 400, d_literacy_rate_percent = Fin 80,
                d_last_election_turnout_percent = NaN \<rparr>];
        M = [\<lparr> m_pc_id = ''PC001'', m_state = ''Goa'', m_constituency_name = ''North Goa'',
                m_form6_addition_requests = Fin 100, m_net_migration = Fin (- 30) \<rparr>];
        S = [\<lparr> s_pc_id = ''PC002'', s_state = ''Goa'', s_constituency_name = ''South Goa'',
                s_total_requests = Fin 0, s_rejected = Fin 0, s_objections_raised = Fin 0,
                s_cases_per_officer = Fin 0 \<rparr>]
    in distinct (map d_pc_id D) \<and> distinct (map m_pc_id M) \<and> distinct (map s_pc_id S)
       \<and> (\<exists>outs. analysis D M S = Inr outs \<and> length outs = 2
              \<and> map o_pc_id outs = [''PC001'', ''PC002'']))"
proof -
  define D where "D = [\<lparr> d_pc_id = ''PC001'', d_state = ''Goa'', d_constituency_name = ''North Goa'',
                d_total_registered_voters = Fin 1000, d_female_voters = Fin 500,
                d_age_18_25 = Fin 200, d_age_26_40 = Fin 300, d_age_41_60 = Fin 300,
                d_age_60_plus = Fin 200, d_literacy_rate_percent = Fin 70,
                d_last_election_turnout_percent = Fin 60 \<rparr>,
             \<lparr> d_pc_id = ''PC002'', d_state = ''Goa'', d_constituency_name = ''South Goa'',
                d_total_registered_voters = Fin 2000, d_female_voters = Fin 900,
                d_age_18_25 = Fin 400, d_age_26_40 = Fin 600, d_age_41_60 = Fin 600,
                d_age_60_plus = Fin 400, d_literacy_rate_percent = Fin 80,
                d_last_election_turnout_percent = NaN \<rparr>]"
  define M where "M = [\<lparr> m_pc_id = ''PC001'', m_state = ''Goa'', m_constituency_name = ''North Goa'',
                m_form6_addition_requests = Fin 100, m_net_migration = Fin (- 30) \<rparr>]"
  define S where "S = [\<lparr> s_pc_id = ''PC002'', s_state = ''Goa'', s_constituency_name = ''South Goa'',
                s_total_requests = Fin 0, s_rejected = Fin 0, s_objections_raised = Fin 0,
                s_cases_per_officer = Fin 0 \<rparr>]"
  have h: "distinct (map d_pc_id D)" "distinct (map m_pc_id M)" "distinct (map s_pc_id S)"
    by (simp_all add: D_def M_def S_def)
  from one_output_row_per_constituency [OF h]
  obtain outs where "analysis D M S = Inr outs" "length outs = length D"
    "map o_pc_id outs = map d_pc_id D"
    by blast
  then have "\<exists>outs. analysis D M S = Inr outs \<and> length outs = 2
              \<and> map o_pc_id outs = [''PC001'', ''PC002'']"
    by (simp add: D_def)
  with h show ?thesis
    unfolding Let_def D_def [symmetric] M_def [symmetric] S_def [symmetric] by simp
qed

section \<open>The Age Distribution Score\<close>

lemma abs_diff_NaN_iff:
  assumes "fin_or_nan a" "a \<noteq> NaN \<longrightarrow> (\<exists>y. m = Fin y)"
  shows "fabs (fsub a m) \<noteq> NaN \<longleftrightarrow> a \<noteq> NaN"
  using assms by (auto simp: fin_or_nan_cases fsub_def)

lemma ADS_general:
  assumes Q: "list_all2 (\<lambda>a m. fin_or_nan a \<and> (a \<noteq> NaN \<longrightarrow> (\<exists>y. m = Fin y))) ages avgs"
  shows "fsub (Fin 1) (nanmean (map fabs (map (\<lambda>(a, m). fsub a m) (zip ages avgs))))
           = ads_spec ages avgs"
    and "fsub (Fin 1) (nanmean (map fabs (map (\<lambda>(a, m). fsub a m) (zip ages avgs)))) = NaN
           \<longleftrightarrow> (\<forall>a\<in>set ages. a = NaN)"
proof -
  let ?zs = "zip ages avgs"
  let ?g = "\<lambda>(a, m). fabs (fsub a m)"
  let ?P = "\<lambda>(a, m). a \<noteq> NaN"
  from Q have len: "length ages = length avgs" by (rule list_all2_lengthD)
  from Q have q: "fin_or_nan a \<and> (a \<noteq> NaN \<longrightarrow> (\<exists>y. m = Fin y))" if "(a, m) \<in> set ?zs" for a m
    using that by (auto simp: list_all2_iff)
  have terms: "map fabs (map (\<lambda>(a, m). fsub a m) ?zs) = map ?g ?zs"
    by (simp add: case_prod_unfold)
  have same: "((\<lambda>x. x \<noteq> NaN) \<circ> ?g) z = ?P z" if "z \<in> set ?zs" for z
  proof -
    obtain a m where z: "z = (a, m)" by (cases z)
    from q [of a m] that z have "fin_or_nan a" "a \<noteq> NaN \<longrightarrow> (\<exists>y. m = Fin y)" by auto
    then have "fabs (fsub a m) \<noteq> NaN \<longleftrightarrow> a \<noteq> NaN" by (rule abs_diff_NaN_iff)
    with z show ?thesis by simp
  qed
  have "filter (\<lambda>x. x \<noteq> NaN) (map ?g ?zs) = map ?g (filter ((\<lambda>x. x \<noteq> NaN) \<circ> ?g) ?zs)"
    by (simp only: filter_map)
  also have "filter ((\<lambda>x. x \<noteq> NaN) \<circ> ?g) ?zs = filter ?P ?zs"
    using same by (intro filter_cong refl) blast
  finally have flt: "filter (\<lambda>x. x \<noteq> NaN) (map ?g ?zs) = map ?g (filter ?P ?zs)" .
  show eq: "fsub (Fin 1) (nanmean (map fabs (map (\<lambda>(a, m). fsub a m) ?zs))) = ads_spec ages avgs"
    unfolding terms nanmean_def ads_spec_def Let_def flt by (simp add: fsub_def)
  have present: "filter ?P ?zs = [] \<longleftrightarrow> (\<forall>a\<in>set ages. a = NaN)"
  proof -
    have "map fst ?zs = ages" using len by simp
    then have "set ages = fst ` set ?zs" by (metis set_map)
    then show ?thesis by (auto simp: filter_empty_conv)
  qed
  have "\<exists>x. ads_spec ages avgs = Fin x" if ne: "filter ?P ?zs \<noteq> []"
  proof -
    have "\<forall>x\<in>set (map ?g (filter ?P ?zs)). \<exists>c. x = Fin c"
      by (auto dest!: q simp: fin_or_nan_cases fsub_def)
    then obtain s where "fsum (map ?g (filter ?P ?zs)) = Fin s"
      using fsum_all_Fin by blast
    with ne show ?thesis by (simp add: ads_spec_def fsub_def)
  qed
  moreover have "ads_spec ages avgs = NaN" if "filter ?P ?zs = []"
    using that by (simp add: ads_spec_def)
  ultimately show "fsub (Fin 1) (nanmean (map fabs (map (\<lambda>(a, m). fsub a m) ?zs))) = NaN
           \<longleftrightarrow> (\<forall>a\<in>set ages. a = NaN)"
    unfolding eq present [symmetric] by (cases "filter ?P ?zs = []") auto
qed

lemma column_average_present:
  assumes "\<forall>r\<in>set t. fin_or_nan (c r)" "r \<in> set t"
  shows "fin_or_nan (c r) \<and> (c r \<noteq> NaN \<longrightarrow> (\<exists>y. nanmean (map c t) = Fin y))"
proof (intro conjI impI)
  show "fin_or_nan (c r)" using assms by simp
  assume "c r \<noteq> NaN"
  with assms(2) have "\<exists>x\<in>set (map c t). x \<noteq> NaN" by auto
  moreover have "\<forall>x\<in>set (map c t). fin_or_nan x" using assms(1) by simp
  ultimately show "\<exists>y. nanmean (map c t) = Fin y" by (rule nanmean_Fin [rotated])
qed

text \<open>
  Claim C9.  For every row of a joined table whose numeric cells are finite or missing,
  the Age Distribution Score is one minus the mean of the absolute differences between
  the row's age brackets and the national averages, taken over the brackets whose value
  is present.  The score is missing only when all four brackets are missing: a national
  average of zero does not make it missing, as no zero-reference guard is applied.
\<close>

theorem ADS_spec:
  assumes fin: "\<forall>r\<in>set t. fin_row r" and r: "r \<in> set t"
  shows "ADS (national_baselines t) r
           = ads_spec (age_vec r) (national_age_avg (national_baselines t))
     \<and> (ADS (national_baselines t) r = NaN \<longleftrightarrow> (\<forall>a\<in>set (age_vec r). a = NaN))"
proof -
  have "list_all2 (\<lambda>a m. fin_or_nan a \<and> (a \<noteq> NaN \<longrightarrow> (\<exists>y. m = Fin y)))
          (age_vec r) (national_age_avg (national_baselines t))"
    using column_average_present [of t age_18_25 r] column_average_present [of t age_26_40 r]
      column_average_present [of t age_41_60 r] column_average_present [of t age_60_plus r]
      fin r
    by (simp add: age_vec_def national_baselines_def fin_row_def)
  from ADS_general [OF this] show ?thesis
    by (simp add: ADS_def)
qed

theorem ADS_spec_witness:
  "(let r = \<lparr> pc_id = ''PC001'', state = ''Goa'', constituency_name = ''Goa PC001'',
              total_registered_voters = Fin 1000, female_voters = Fin 500,
              age_18_25 = Fin 0, age_26_40 = NaN, age_41_60 = Fin (3 / 10), age_60_plus = Fin (2 / 10),
              literacy_rate_percent = Fin 70, last_election_turnout_percent = Fin 60,
              form6_addition_requests = NaN, net_migration = NaN, total_requests = NaN,
              rejected = NaN, objections_raised = NaN, cases_per_officer = NaN \<rparr>;
        t = [r, \<lparr> pc_id = ''PC002'', state = ''Goa'', constituency_name = ''Goa PC002'',
              total_registered_voters = Fin 1000, female_voters = Fin 500,
              age_18_25 = Fin 0, age_26_40 = Fin (1 / 10), age_41_60 = Fin (5 / 10), age_60_plus = Fin (4 / 10),
              literacy_rate_percent = Fin 70, last_election_turnout_percent = Fin 60,
              form6_addition_requests = NaN, net_migration = NaN, total_requests = NaN,
              rejected = NaN, objections_raised = NaN, cases_per_officer = NaN \<rparr>]
    in list_all fin_row t \<and> r \<in> set t
       \<and> national_age_avg (national_baselines t) = [Fin 0, Fin (1 / 10), Fin (4 / 10), Fin (3 / 10)]
       \<and> ADS (national_baselines t) r = Fin (14 / 15)
       \<and> ads_spec (age_vec r) (national_age_avg (national_baselines t)) = Fin (14 / 15))"
proof -
  define r where "r = \<lparr> pc_id = ''PC001'', state = ''Goa'', constituency_name = ''Goa PC001'',
              total_registered_voters = Fin 1000, female_voters = Fin 500,
              age_18_25 = Fin 0, age_26_40 = NaN, age_41_60 = Fin (3 / 10), age_60_plus = Fin (2 / 10),
              literacy_rate_percent = Fin 70, last_election_turnout_percent = Fin 60,
              form6_addition_requests = NaN, net_migration = NaN, total_requests = NaN,
              rejected = NaN, objections_raised = NaN, cases_per_officer = NaN \<rparr>"
  define t where "t = [r, \<lparr> pc_id = ''PC002'', state = ''Goa'', constituency_name = ''Goa PC002'',
              total_registered_voters = Fin 1000, female_voters = Fin 500,
              age_18_25 = Fin 0, age_26_40 = Fin (1 / 10), age_41_60 = Fin (5 / 10), age_60_plus = Fin (4 / 10),
              literacy_rate_percent = Fin 70, last_election_turnout_percent = Fin 60,
              form6_addition_requests = NaN, net_migration = NaN, total_requests = NaN,
              rejected = NaN, objections_raised = NaN, cases_per_officer = NaN \<rparr>]"
  have fin: "\<forall>x\<in>set t. fin_row x"
    by (simp add: t_def r_def fin_row_def fin_or_nan_def)
  have mem: "r \<in> set t"
    by (simp add: t_def)
  have avg: "national_age_avg (national_baselines t) = [Fin 0, Fin (1 / 10), Fin (4 / 10), Fin (3 / 10)]"
    by (simp add: t_def r_def national_baselines_def nanmean_def fsum_def)
  have val: "ads_spec (age_vec r) (national_age_avg (national_baselines t)) = Fin (14 / 15)"
    unfolding avg by (simp add: r_def age_vec_def ads_spec_def fsum_def fsub_def)
  from ADS_spec [OF fin mem] val fin mem avg show ?thesis
    unfolding Let_def t_def [symmetric] r_def [symmetric] by (simp add: list_all_iff)
qed

end
